theory Spec2Isabelle
  imports Main
begin

section \<open>Python strings and paths\<close>

text \<open>
  The transfer layer of \<^verbatim>\<open>dane/s3_util.py\<close> works on Python strings. A string is a
  \<^typ>\<open>string\<close>; the slices and string methods the source uses are written out here with
  the results Python gives them, the out-of-range cases included.
\<close>

definition startswith :: "string \<Rightarrow> string \<Rightarrow> bool" where
  "startswith s p = (take (length p) s = p)"

definition endswith :: "string \<Rightarrow> string \<Rightarrow> bool" where
  "endswith s p = (length p \<le> length s \<and> drop (length s - length p) s = p)"

text \<open>\<^verbatim>\<open>sub in s\<close>: the substring test.\<close>

fun py_in :: "string \<Rightarrow> string \<Rightarrow> bool" where
  "py_in sub [] = (sub = [])"
| "py_in sub (c # s) = (startswith (c # s) sub \<or> py_in sub s)"

text \<open>
  \<^verbatim>\<open>s.split(sep)\<close> for a one-character separator: the segments between the separators,
  empty segments kept, so the result is never the empty list.
\<close>

fun split_from :: "char \<Rightarrow> string \<Rightarrow> string \<Rightarrow> string list" where
  "split_from sep cur [] = [cur]"
| "split_from sep cur (c # s) =
     (if c = sep then cur # split_from sep [] s else split_from sep (cur @ [c]) s)"

definition py_split :: "string \<Rightarrow> char \<Rightarrow> string list" where
  "py_split s sep = split_from sep [] s"

text \<open>\<^verbatim>\<open>s.find(c)\<close>: the first index of \<open>c\<close>, or \<open>-1\<close>.\<close>

definition py_find :: "string \<Rightarrow> char \<Rightarrow> int" where
  "py_find s c = (if c \<in> set s then int (length (takeWhile (\<lambda>x. x \<noteq> c) s)) else - 1)"

text \<open>\<^verbatim>\<open>s.find(c, start)\<close> where it is not \<open>-1\<close>.\<close>

definition find_from :: "string \<Rightarrow> char \<Rightarrow> nat \<Rightarrow> nat option" where
  "find_from s c start =
     (if c \<in> set (drop start s)
      then Some (start + length (takeWhile (\<lambda>x. x \<noteq> c) (drop start s)))
      else None)"

text \<open>\<^verbatim>\<open>s[:i]\<close>: a negative \<open>i\<close> counts from the end.\<close>

definition slice_to :: "string \<Rightarrow> int \<Rightarrow> string" where
  "slice_to s i = (if i < 0 then take (length s - nat (- i)) s else take (nat i) s)"

subsection \<open>Paths\<close>

text \<open>
  \<^verbatim>\<open>os.path\<close> is \<^verbatim>\<open>posixpath\<close>: the separator is \<^verbatim>\<open>/\<close>.
  \<^verbatim>\<open>os.path.basename(p)\<close> is what follows the last separator.
\<close>

definition os_path_basename :: "string \<Rightarrow> string" where
  "os_path_basename p = rev (takeWhile (\<lambda>c. c \<noteq> CHR ''/'') (rev p))"

text \<open>
  \<^verbatim>\<open>os.path.join(a, b)\<close>: an absolute \<open>b\<close> replaces \<open>a\<close>; otherwise \<open>b\<close> is appended,
  after a separator unless \<open>a\<close> is empty or ends with one.
\<close>

definition join2 :: "string \<Rightarrow> string \<Rightarrow> string" where
  "join2 a b =
     (if startswith b ''/'' then b
      else if a = [] \<or> endswith a ''/'' then a @ b
      else a @ ''/'' @ b)"

text \<open>\<^verbatim>\<open>os.path.join(a, *p)\<close> folds the components from the left.\<close>

definition os_path_join :: "string \<Rightarrow> string list \<Rightarrow> string" where
  "os_path_join a ps = foldl join2 a ps"

text \<open>
  \<^verbatim>\<open>os.path.splitext(p)[0]\<close>: the path without its extension. The extension starts at
  the last dot of the last component, unless only dots precede it there.
\<close>

definition splitext_root :: "string \<Rightarrow> string" where
  "splitext_root p =
     (let base = os_path_basename p;
          after_dot = rev (takeWhile (\<lambda>c. c \<noteq> CHR ''.'') (rev base));
          stem = take (length base - length after_dot - 1) base
      in if CHR ''.'' \<in> set base \<and> (\<exists>c \<in> set stem. c \<noteq> CHR ''.'')
         then take (length p - length after_dot - 1) p
         else p)"

text \<open>
  \<^verbatim>\<open>ntpath.basename(p)\<close>, which \<^verbatim>\<open>generate_asset_id_from_input_file\<close> calls, is the
  Windows flavour: both \<^verbatim>\<open>/\<close> and the backslash separate, and a drive (a letter and a
  colon, or a UNC share) is cut off first. \<open>nt_after_drive\<close> is
  \<^verbatim>\<open>ntpath.splitdrive(p)[1]\<close> of CPython 3.11 and 3.12.
\<close>

definition bslash :: char where
  "bslash = CHR 0x5C"

definition ascii_upper :: "char \<Rightarrow> char" where
  "ascii_upper c =
     (let n = (of_char c :: nat) in if 97 \<le> n \<and> n \<le> 122 then char_of (n - 32) else c)"

definition unc_prefix :: string where
  "unc_prefix = [bslash, bslash, CHR ''?'', bslash, CHR ''U'', CHR ''N'', CHR ''C'', bslash]"

definition nt_after_drive :: "string \<Rightarrow> string" where
  "nt_after_drive p =
     (let normp = map (\<lambda>c. if c = CHR ''/'' then bslash else c) p in
      if take 2 normp = [bslash, bslash] then
        (let start = (if map ascii_upper (take 8 normp) = unc_prefix then 8 else 2) in
         case find_from normp bslash start of
           None \<Rightarrow> []
         | Some index \<Rightarrow>
             (case find_from normp bslash (index + 1) of
                None \<Rightarrow> []
              | Some index2 \<Rightarrow> drop index2 p))
      else if take 1 (drop 1 normp) = '':'' then drop 2 p
      else p)"

definition ntpath_basename :: "string \<Rightarrow> string" where
  "ntpath_basename p =
     rev (takeWhile (\<lambda>c. c \<noteq> CHR ''/'' \<and> c \<noteq> bslash) (rev (nt_after_drive p)))"

text \<open>
  \<^verbatim>\<open>str(Path(p).parent)\<close> on a POSIX system: the path is cut into its root and its
  components (empty ones and \<^verbatim>\<open>.\<close> dropped), and the last component is removed.
\<close>

fun join_slash :: "string list \<Rightarrow> string" where
  "join_slash [] = []"
| "join_slash [x] = x"
| "join_slash (x # y # ys) = x @ ''/'' @ join_slash (y # ys)"

definition pathlib_parent :: "string \<Rightarrow> string" where
  "pathlib_parent p =
     (let root = (if startswith p ''//'' \<and> \<not> startswith p ''///'' then ''//''
                  else if startswith p ''/'' then ''/'' else []);
          parts = filter (\<lambda>x. x \<noteq> [] \<and> x \<noteq> ''.'') (py_split p CHR ''/'');
          kept = butlast parts
      in if root = [] \<and> kept = [] then ''.'' else root @ join_slash kept)"

section \<open>The pure functions of the module\<close>

definition COMPRESSED_TAR_EXTENSION :: string where
  "COMPRESSED_TAR_EXTENSION = ''.tar.gz''"

text \<open>
  \<^verbatim>\<open>generate_asset_id_from_input_file\<close>: the file name of a path, with or without its
  extension.
\<close>

definition generate_asset_id_from_input_file :: "string \<Rightarrow> bool \<Rightarrow> string" where
  "generate_asset_id_from_input_file input_file with_extension =
     (let file_name = ntpath_basename input_file in
      if with_extension then file_name else splitext_root file_name)"

text \<open>
  \<^verbatim>\<open>parse_s3_uri\<close>: the bucket is the text between the scheme and the first separator
  after it, the object name what follows that separator. Where no separator is found,
  \<^verbatim>\<open>find\<close> gives \<open>-1\<close> and the slice drops the last character.
\<close>

definition parse_s3_uri :: "string \<Rightarrow> string \<times> string" where
  "parse_s3_uri s3_uri =
     (let tmp = drop 5 s3_uri;
          bucket = slice_to tmp (py_find tmp CHR ''/'');
          object_name = drop (length bucket + 6) s3_uri
      in (bucket, object_name))"

section \<open>The environment: object store, file system, archiver\<close>

text \<open>
  Everything outside the module is an environment the functions call into: the boto3
  client, the local file system and \<^verbatim>\<open>tarfile\<close>. A run is recorded as the list of
  its effects, oldest first, and the environment answers each call as a function of the
  effects so far and the call's arguments. So a store whose second upload fails, or whose
  listing changes after a delete, is an environment like any other.
\<close>

text \<open>
  The exceptions that leave a function: a missing dictionary entry, an index out of
  range, the \<^verbatim>\<open>raise Exception(...)\<close> of \<^verbatim>\<open>digest_file_list\<close>, and whatever the
  client or the operating system raises in a call that no \<^verbatim>\<open>try\<close> encloses.
\<close>

datatype py_error =
    KeyError string
  | IndexError
  | Exception string
  | ClientError string
  | OSError string

text \<open>
  The logger's records at warning level and above, by the method called and the message
  template as the source writes it (the interpolated values are not modelled). Records at
  info and debug level are left out.
\<close>

datatype logger_method = logger_warn | logger_error | logger_exception

text \<open>
  What the block \<^verbatim>\<open>with tarfile.open(archive_path, "w:gz") as tar: ...\<close> does: it
  completes, or raises an exception that one of the three handlers of
  \<^verbatim>\<open>tar_list_of_files\<close> catches. (An interrupt of the process, which is no
  \<^verbatim>\<open>Exception\<close>, is outside the model, here and in the \<^verbatim>\<open>try\<close> blocks of the
  uploads and downloads.)
\<close>

datatype tar_outcome =
    TarCreated
  | RaisedTarError
  | RaisedFileNotFoundError
  | RaisedOtherException

text \<open>
  An effect is a call into the environment or a log record.
  \<^item> \<open>ListObjects bucket prefix marker\<close>, \<open>ListObjectsV2 bucket prefix marker\<close>:
    one page request.
  \<^item> \<open>DeleteObjects bucket keys\<close>: one batch delete.
  \<^item> \<open>UploadFile filename bucket key ok\<close>: the \<^verbatim>\<open>try\<close> block around
    \<^verbatim>\<open>client.upload_file\<close>; \<open>ok\<close> is false when it raised.
  \<^item> \<open>DownloadFileobj bucket key path ok\<close>: the \<^verbatim>\<open>try\<close> block that opens
    \<open>path\<close> for writing and calls \<^verbatim>\<open>client.download_fileobj\<close>; \<open>ok\<close> is
    false when it raised.
  \<^item> \<open>Makedirs path\<close>: \<^verbatim>\<open>os.makedirs(path)\<close>.
  \<^item> \<open>TarOpen archive_path members outcome\<close>: the archive block.
\<close>

datatype effect =
    ListObjects string string "string option"
  | DeleteObjects string "string list"
  | UploadFile string string string bool
  | ListObjectsV2 string string "string option"
  | DownloadFileobj string string string bool
  | Makedirs string
  | TarOpen string "string list" tar_outcome
  | Logged logger_method string

text \<open>
  A listing response is a dictionary; an entry may be absent, and reading an absent
  entry raises \<^verbatim>\<open>KeyError\<close>. Each item of \<^verbatim>\<open>Contents\<close> is kept as its \<^verbatim>\<open>Key\<close>.
\<close>

record response =
  Contents :: "string list option"
  IsTruncated :: "bool option"
  KeyCount :: "int option"

text \<open>
  What the file system holds at a path, as \<^verbatim>\<open>os.path.isdir\<close> and \<^verbatim>\<open>os.walk\<close> see
  it: a directory with its entries (name and content, in the order \<^verbatim>\<open>scandir\<close> lists
  them), or anything else (a regular file, or nothing at all).
\<close>

datatype fsnode = NonDir | Dir "(string \<times> fsnode) list"

record world =
  list_objects :: "effect list \<Rightarrow> string \<Rightarrow> string \<Rightarrow> string option \<Rightarrow> py_error + response"
  list_objects_v2 :: "effect list \<Rightarrow> string \<Rightarrow> string \<Rightarrow> string option \<Rightarrow> py_error + response"
  delete_objects :: "effect list \<Rightarrow> string \<Rightarrow> string list \<Rightarrow> py_error option"
  upload_file :: "effect list \<Rightarrow> string \<Rightarrow> string \<Rightarrow> string \<Rightarrow> bool"
  download_fileobj :: "effect list \<Rightarrow> string \<Rightarrow> string \<Rightarrow> string \<Rightarrow> bool"
  path_exists :: "effect list \<Rightarrow> string \<Rightarrow> bool"
  makedirs :: "effect list \<Rightarrow> string \<Rightarrow> py_error option"
  fs_tree :: "effect list \<Rightarrow> string \<Rightarrow> fsnode"
  tar_write :: "effect list \<Rightarrow> string \<Rightarrow> string list \<Rightarrow> tar_outcome"

text \<open>
  \<^verbatim>\<open>DownloadResult\<close>. The field \<^verbatim>\<open>download_time\<close> is a difference of two clock
  readings and is left out.
\<close>

record DownloadResult =
  success :: bool
  file_path :: string
  mime_type :: string
  content_length :: int

definition download_result :: "bool \<Rightarrow> string \<Rightarrow> DownloadResult" where
  "download_result ok path =
     \<lparr>success = ok, file_path = path, mime_type = ''unknown'', content_length = - 1\<rparr>"

section \<open>Archiving\<close>

text \<open>
  \<^verbatim>\<open>is_valid_tar_path\<close>: the parent directory exists and the last seven characters are
  the extension.
\<close>

definition is_valid_tar_path :: "world \<Rightarrow> effect list \<Rightarrow> string \<Rightarrow> effect list \<times> bool" where
  "is_valid_tar_path w h archive_path =
     (if \<not> path_exists w h (pathlib_parent archive_path) then
        (h @ [Logged logger_error ''Parent dir does not exist: {archive_path}''], False)
      else if drop (length archive_path - 7) archive_path \<noteq> COMPRESSED_TAR_EXTENSION then
        (h @ [Logged logger_error
                ''Archive file should have correct extension: {COMPRESSED_TAR_EXTENSION}''],
         False)
      else (h, True))"

text \<open>
  \<^verbatim>\<open>tar_list_of_files\<close>: after each handler the function falls through to
  \<^verbatim>\<open>logger.error("Unknown error")\<close> and \<^verbatim>\<open>return False\<close>.
\<close>

definition tar_list_of_files ::
  "world \<Rightarrow> effect list \<Rightarrow> string \<Rightarrow> string list \<Rightarrow> effect list \<times> bool" where
  "tar_list_of_files w h archive_path file_list =
     (let (h1, valid) = is_valid_tar_path w h archive_path in
      if \<not> valid then (h1, False)
      else
        (let outcome = tar_write w h1 archive_path file_list;
             h2 = h1 @ [TarOpen archive_path file_list outcome]
         in case outcome of
              TarCreated \<Rightarrow> (h2, True)
            | RaisedTarError \<Rightarrow>
                (h2 @ [Logged logger_exception ''Failed to created archive: {archive_path}'',
                       Logged logger_error ''Unknown error''], False)
            | RaisedFileNotFoundError \<Rightarrow>
                (h2 @ [Logged logger_exception ''File in file list not found'',
                       Logged logger_error ''Unknown error''], False)
            | RaisedOtherException \<Rightarrow>
                (h2 @ [Logged logger_exception ''Unhandled error'',
                       Logged logger_error ''Unknown error''], False)))"

section \<open>Mapping a file list to keys\<close>

text \<open>
  \<^verbatim>\<open>os.walk(top)\<close>, top down: for the directory itself and then for every directory
  below it, the triple of its path, its sub-directories and its other entries. The
  entries carry their content along, so that what \<^verbatim>\<open>os.path.isdir\<close> answers for a
  path built from a triple is what the tree holds there. Walking something that is not
  a directory yields nothing.
\<close>

fun is_dir :: "fsnode \<Rightarrow> bool" where
  "is_dir NonDir = False"
| "is_dir (Dir entries) = True"

type_synonym walk_triple = "string \<times> (string \<times> fsnode) list \<times> (string \<times> fsnode) list"

fun os_walk :: "string \<Rightarrow> fsnode \<Rightarrow> walk_triple list"
and os_walk_entries :: "string \<Rightarrow> (string \<times> fsnode) list \<Rightarrow> walk_triple list" where
  "os_walk root NonDir = []"
| "os_walk root (Dir entries) =
     (root, filter (\<lambda>e. is_dir (snd e)) entries, filter (\<lambda>e. \<not> is_dir (snd e)) entries)
     # os_walk_entries root entries"
| "os_walk_entries root [] = []"
| "os_walk_entries root ((name, x) # rest) =
     os_walk (join2 root name) x @ os_walk_entries root rest"

text \<open>
  The list \<^verbatim>\<open>[os.path.join(root, fn) for fn in dirs + files]\<close> that
  \<^verbatim>\<open>digest_file_list\<close> builds from a triple.
\<close>

definition walk_file_list :: "walk_triple \<Rightarrow> (string \<times> fsnode) list" where
  "walk_file_list t =
     (case t of (root, dirs, files) \<Rightarrow> map (\<lambda>(fn, x). (join2 root fn, x)) (dirs @ files))"

text \<open>The size of a tree, by which the recursion of the mapping terminates.\<close>

fun node_size :: "fsnode \<Rightarrow> nat"
and entries_size :: "(string \<times> fsnode) list \<Rightarrow> nat" where
  "node_size NonDir = 1"
| "node_size (Dir entries) = Suc (entries_size entries)"
| "entries_size [] = 0"
| "entries_size ((name, x) # rest) = node_size x + entries_size rest"

lemma node_size_pos: "0 < node_size x"
  by (cases x) simp_all

lemma entries_size_append: "entries_size (xs @ ys) = entries_size xs + entries_size ys"
  by (induction xs) auto

lemma entries_size_map: "entries_size (map (\<lambda>(fn, x). (g fn, x)) es) = entries_size es"
  by (induction es) auto

lemma entries_size_partition:
  "entries_size (filter P es) + entries_size (filter (\<lambda>e. \<not> P e) es) = entries_size es"
  by (induction es) auto

lemma entries_size_walk_file_list:
  "entries_size (walk_file_list
      (root, filter (\<lambda>e. is_dir (snd e)) es, filter (\<lambda>e. \<not> is_dir (snd e)) es)) =
   entries_size es"
  using entries_size_partition [of "\<lambda>e. is_dir (snd e)" es]
  by (simp add: walk_file_list_def entries_size_map entries_size_append)

lemma os_walk_smaller:
  "t \<in> set (os_walk root x) \<Longrightarrow> entries_size (walk_file_list t) < node_size x"
  "t \<in> set (os_walk_entries root es) \<Longrightarrow> entries_size (walk_file_list t) < Suc (entries_size es)"
proof (induction root x and root es rule: os_walk_os_walk_entries.induct)
  case (1 root)
  then show ?case by simp
next
  case (2 root entries)
  then show ?case
    using entries_size_walk_file_list [of root entries] by auto
next
  case (3 root)
  then show ?case by simp
next
  case (4 root name x rest)
  then show ?case by fastforce
qed

text \<open>
  The branch of \<^verbatim>\<open>digest_file_list\<close> that runs when no archive path is given, on
  a file list whose entries carry what the file system holds at them. The recursive call
  of the source passes the archive path on, which is empty in this branch, so the
  recursion stays in this branch. For a directory \<open>f\<close> the source loops over
  \<^verbatim>\<open>os.walk(f)\<close> and digests, for every triple, the joined names of
  \<^verbatim>\<open>dirs + files\<close> under the prefix extended by the basename of \<open>f\<close>.
\<close>

function digest_paths :: "(string \<times> fsnode) list \<Rightarrow> string \<Rightarrow> (string \<times> string) list" where
  "digest_paths [] prefix = []"
| "digest_paths ((f, NonDir) # rest) prefix =
     (f, join2 prefix (generate_asset_id_from_input_file f True)) # digest_paths rest prefix"
| "digest_paths ((f, Dir entries) # rest) prefix =
     concat (map (\<lambda>t. digest_paths (walk_file_list t) (join2 prefix (os_path_basename f)))
               (os_walk f (Dir entries)))
     @ digest_paths rest prefix"
  by pat_completeness auto
termination
proof (relation "measure (\<lambda>(file_list, prefix). entries_size file_list)")
  show "wf (measure (\<lambda>(file_list, prefix). entries_size file_list))"
    by simp
next
  fix f rest prefix
  show "((rest, prefix), (f, NonDir) # rest, prefix)
      \<in> measure (\<lambda>(file_list, prefix). entries_size file_list)"
    by simp
next
  fix f entries rest prefix t
  assume "t \<in> set (os_walk f (Dir entries))"
  then show "((walk_file_list t, join2 prefix (os_path_basename f)), (f, Dir entries) # rest, prefix)
      \<in> measure (\<lambda>(file_list, prefix). entries_size file_list)"
    using os_walk_smaller(1) [of t f "Dir entries"] by simp
next
  fix f entries rest prefix
  show "((rest, prefix), (f, Dir entries) # rest, prefix)
      \<in> measure (\<lambda>(file_list, prefix). entries_size file_list)"
    by simp
qed

text \<open>
  \<^verbatim>\<open>digest_file_list\<close>. A non-empty archive path is the archive branch: the file list
  is archived and the one pair of the archive is returned, or the function raises.
\<close>

definition digest_file_list ::
  "world \<Rightarrow> effect list \<Rightarrow> string list \<Rightarrow> string \<Rightarrow> string
     \<Rightarrow> effect list \<times> (py_error + (string \<times> string) list)" where
  "digest_file_list w h file_list prefix tar_archive_path =
     (if tar_archive_path \<noteq> [] then
        (let (h1, tar_success) = tar_list_of_files w h tar_archive_path file_list in
         if \<not> tar_success then
           (h1 @ [Logged logger_error
                    ''Could not archive the file list before transferring to S3''],
            Inl (Exception ''Could not digest file list: archive error''))
         else
           (h1, Inr [(tar_archive_path,
                      join2 prefix (generate_asset_id_from_input_file tar_archive_path True))]))
      else
        (h, Inr (digest_paths (map (\<lambda>f. (f, fs_tree w h f)) file_list) prefix)))"

section \<open>URI validation\<close>

text \<open>\<^verbatim>\<open>validate_s3_uri\<close>: the scheme, then at least two segments after it.\<close>

definition validate_s3_uri :: "effect list \<Rightarrow> string \<Rightarrow> effect list \<times> bool" where
  "validate_s3_uri h s3_uri =
     (if take 5 s3_uri \<noteq> ''s3://'' then
        (h @ [Logged logger_error ''Invalid protocol in {s3_uri}''], False)
      else if length (py_split (drop 5 s3_uri) CHR ''/'') < 2 then
        (h @ [Logged logger_error ''No object_name specified {s3_uri}''], False)
      else (h, True))"

section \<open>S3Store\<close>

text \<open>
  The \<^verbatim>\<open>while True\<close> loop of \<^verbatim>\<open>clear_prefix\<close>, entered with the first response:
  it collects the keys of the page, stops at a page that is not truncated, and otherwise
  asks for the page after the last key. The store decides whether a page is truncated,
  so the loop need not end: not returning is the value \<open>None\<close>.
\<close>

partial_function (option) clear_prefix_listing ::
  "world \<Rightarrow> effect list \<Rightarrow> string \<Rightarrow> string \<Rightarrow> response \<Rightarrow> string list
     \<Rightarrow> (effect list \<times> (py_error + string list)) option" where
  "clear_prefix_listing w h bucket prefix response to_delete =
     (case Contents response of
        None \<Rightarrow> Some (h, Inl (KeyError ''Contents''))
      | Some items \<Rightarrow>
          (case IsTruncated response of
             None \<Rightarrow> Some (h, Inl (KeyError ''IsTruncated''))
           | Some truncated \<Rightarrow>
               if \<not> truncated then Some (h, Inr (to_delete @ items))
               else if items = [] then Some (h, Inl IndexError)
               else
                 (case list_objects w h bucket prefix (Some (last items)) of
                    Inl e \<Rightarrow> Some (h @ [ListObjects bucket prefix (Some (last items))], Inl e)
                  | Inr response' \<Rightarrow>
                      clear_prefix_listing w (h @ [ListObjects bucket prefix (Some (last items))])
                        bucket prefix response' (to_delete @ items))))"

text \<open>
  \<^verbatim>\<open>S3Store.clear_prefix\<close>: one listing; when its \<^verbatim>\<open>Contents\<close> is not empty, the
  keys of all pages are collected and deleted in one call.
\<close>

definition clear_prefix ::
  "world \<Rightarrow> effect list \<Rightarrow> string \<Rightarrow> string \<Rightarrow> (effect list \<times> (py_error + unit)) option" where
  "clear_prefix w h bucket prefix =
     (let h1 = h @ [ListObjects bucket prefix None] in
      case list_objects w h bucket prefix None of
        Inl e \<Rightarrow> Some (h1, Inl e)
      | Inr response \<Rightarrow>
          (case Contents response of
             None \<Rightarrow> Some (h1, Inl (KeyError ''Contents''))
           | Some items \<Rightarrow>
               if length items > 0 then
                 (let h2 = h1 @ [Logged logger_warn
                                   ''Prefix '{prefix}' exists in bucket '{bucket}'.'']
                  in case clear_prefix_listing w h2 bucket prefix response [] of
                       None \<Rightarrow> None
                     | Some (h3, Inl e) \<Rightarrow> Some (h3, Inl e)
                     | Some (h3, Inr to_delete) \<Rightarrow>
                         (let h4 = h3 @ [Logged logger_warn
                            ''Removing {len(to_delete)} item with '{prefix}' as prefix from bucket.''];
                              h5 = h4 @ [DeleteObjects bucket to_delete]
                          in case delete_objects w h4 bucket to_delete of
                               Some e \<Rightarrow> Some (h5, Inl e)
                             | None \<Rightarrow> Some (h5, Inr ())))
               else Some (h1, Inr ())))"

text \<open>
  The upload loop of \<^verbatim>\<open>transfer_to_s3\<close>: the first upload that raises ends the loop
  with \<^verbatim>\<open>return False\<close>.
\<close>

fun transfer_to_s3_uploads ::
  "world \<Rightarrow> effect list \<Rightarrow> string \<Rightarrow> (string \<times> string) list \<Rightarrow> effect list \<times> bool" where
  "transfer_to_s3_uploads w h bucket [] = (h, True)"
| "transfer_to_s3_uploads w h bucket ((f, k) # file_and_key_list) =
     (if upload_file w h f bucket k
      then transfer_to_s3_uploads w (h @ [UploadFile f bucket k True]) bucket file_and_key_list
      else (h @ [UploadFile f bucket k False, Logged logger_exception ''Failed to upload {f}''],
            False))"

text \<open>\<^verbatim>\<open>S3Store.transfer_to_s3\<close>.\<close>

definition transfer_to_s3 ::
  "world \<Rightarrow> effect list \<Rightarrow> string \<Rightarrow> string \<Rightarrow> string list \<Rightarrow> string
     \<Rightarrow> (effect list \<times> (py_error + bool)) option" where
  "transfer_to_s3 w h bucket prefix file_list tar_archive_path =
     (case clear_prefix w h bucket prefix of
        None \<Rightarrow> None
      | Some (h1, Inl e) \<Rightarrow> Some (h1, Inl e)
      | Some (h1, Inr u) \<Rightarrow>
          (case digest_file_list w h1 file_list prefix tar_archive_path of
             (h2, Inl e) \<Rightarrow> Some (h2, Inl e)
           | (h2, Inr file_and_key_list) \<Rightarrow>
               (case transfer_to_s3_uploads w h2 bucket file_and_key_list of
                  (h3, ok) \<Rightarrow> Some (h3, Inr ok))))"

text \<open>
  \<^verbatim>\<open>if not os.path.exists(path): os.makedirs(path)\<close>, which \<^verbatim>\<open>download_file\<close> runs
  for the output folder and for the directory of every key.
\<close>

definition makedirs_if_missing ::
  "world \<Rightarrow> effect list \<Rightarrow> string \<Rightarrow> effect list \<times> py_error option" where
  "makedirs_if_missing w h path =
     (if \<not> path_exists w h path then (h @ [Makedirs path], makedirs w h path) else (h, None))"

text \<open>
  Where a key is written: \<^verbatim>\<open>location\<close> is the output path joined with the segments
  \<^verbatim>\<open>splitpath[2:-1]\<close> of the key, the file its last segment in there.
\<close>

definition key_location :: "string \<Rightarrow> string \<Rightarrow> string" where
  "key_location output_path key =
     os_path_join output_path (drop 2 (butlast (py_split key CHR ''/'')))"

definition key_file_path :: "string \<Rightarrow> string \<Rightarrow> string" where
  "key_file_path output_path key =
     join2 (key_location output_path key) (last (py_split key CHR ''/''))"

text \<open>
  The listing loop of \<^verbatim>\<open>download_file\<close>: the loop of \<^verbatim>\<open>clear_prefix\<close> again, on
  \<^verbatim>\<open>list_objects_v2\<close>.
\<close>

partial_function (option) download_file_listing ::
  "world \<Rightarrow> effect list \<Rightarrow> string \<Rightarrow> string \<Rightarrow> response \<Rightarrow> string list
     \<Rightarrow> (effect list \<times> (py_error + string list)) option" where
  "download_file_listing w h bucket object_name response to_download =
     (case Contents response of
        None \<Rightarrow> Some (h, Inl (KeyError ''Contents''))
      | Some items \<Rightarrow>
          (case IsTruncated response of
             None \<Rightarrow> Some (h, Inl (KeyError ''IsTruncated''))
           | Some truncated \<Rightarrow>
               if \<not> truncated then Some (h, Inr (to_download @ items))
               else if items = [] then Some (h, Inl IndexError)
               else
                 (case list_objects_v2 w h bucket object_name (Some (last items)) of
                    Inl e \<Rightarrow>
                      Some (h @ [ListObjectsV2 bucket object_name (Some (last items))], Inl e)
                  | Inr response' \<Rightarrow>
                      download_file_listing w
                        (h @ [ListObjectsV2 bucket object_name (Some (last items))])
                        bucket object_name response' (to_download @ items))))"

text \<open>
  The download loop of \<^verbatim>\<open>download_file\<close>: a download that raises sets
  \<^verbatim>\<open>success\<close> (here \<open>success_flag\<close>) to false and the loop goes on.
  \<^verbatim>\<open>os.makedirs\<close> stands outside the \<^verbatim>\<open>try\<close>, so what it raises leaves the
  function.
\<close>

fun download_file_items ::
  "world \<Rightarrow> effect list \<Rightarrow> string \<Rightarrow> string \<Rightarrow> string list \<Rightarrow> bool
     \<Rightarrow> effect list \<times> (py_error + bool)" where
  "download_file_items w h bucket output_path [] success_flag = (h, Inr success_flag)"
| "download_file_items w h bucket output_path (key # to_download) success_flag =
     (case makedirs_if_missing w h (key_location output_path key) of
        (h1, Some e) \<Rightarrow> (h1, Inl e)
      | (h1, None) \<Rightarrow>
          (let target = key_file_path output_path key;
               ok = download_fileobj w h1 bucket key target;
               h2 = h1 @ [DownloadFileobj bucket key target ok]
           in if ok then download_file_items w h2 bucket output_path to_download success_flag
              else download_file_items w
                     (h2 @ [Logged logger_exception
                              ''Failed to download {item} from bucket {bucket}.''])
                     bucket output_path to_download False))"

text \<open>
  \<^verbatim>\<open>S3Store.download_file\<close> from the line that computes \<^verbatim>\<open>output_path\<close> on: an
  object name that contains \<^verbatim>\<open>tar.gz\<close> is one object to download, any other is a
  prefix to list and to download key by key.
\<close>

definition download_file_body ::
  "world \<Rightarrow> effect list \<Rightarrow> string \<Rightarrow> string \<Rightarrow> string
     \<Rightarrow> (effect list \<times> (py_error + DownloadResult)) option" where
  "download_file_body w h1 bucket object_name output_folder =
     (let output_path = join2 output_folder (os_path_basename object_name) in
      if py_in ''tar.gz'' object_name then
        (let ok = download_fileobj w h1 bucket object_name output_path;
             h2 = h1 @ [DownloadFileobj bucket object_name output_path ok]
         in if ok then Some (h2, Inr (download_result True output_path))
            else Some (h2 @ [Logged logger_exception ''Failed to download {object_name}''],
                       Inr (download_result False output_path)))
      else
        (let h2 = h1 @ [ListObjectsV2 bucket object_name None] in
         case list_objects_v2 w h1 bucket object_name None of
           Inl e \<Rightarrow> Some (h2, Inl e)
         | Inr response \<Rightarrow>
             (case KeyCount response of
                None \<Rightarrow> Some (h2, Inl (KeyError ''KeyCount''))
              | Some key_count \<Rightarrow>
                  if key_count = 0 then
                    Some (h2 @ [Logged logger_error
                      ''No content available in bucket '{bucket}' for prefix '{object_name}'.''],
                          Inr (download_result False output_path))
                  else
                    (case download_file_listing w h2 bucket object_name response [] of
                       None \<Rightarrow> None
                     | Some (h3, Inl e) \<Rightarrow> Some (h3, Inl e)
                     | Some (h3, Inr to_download) \<Rightarrow>
                         (case download_file_items w h3 bucket output_path to_download True of
                            (h4, Inl e) \<Rightarrow> Some (h4, Inl e)
                          | (h4, Inr ok) \<Rightarrow>
                              Some (h4, Inr (download_result ok output_path)))))))"

text \<open>
  \<^verbatim>\<open>S3Store.download_file\<close>: the output folder is created when it is missing, then
  the download runs.
\<close>

definition download_file ::
  "world \<Rightarrow> effect list \<Rightarrow> string \<Rightarrow> string \<Rightarrow> string
     \<Rightarrow> (effect list \<times> (py_error + DownloadResult)) option" where
  "download_file w h bucket object_name output_folder =
     (case makedirs_if_missing w h output_folder of
        (h1, Some e) \<Rightarrow> Some (h1, Inl e)
      | (h1, None) \<Rightarrow> download_file_body w h1 bucket object_name output_folder)"

text \<open>
  \<^verbatim>\<open>download_s3_uri\<close>. The client that \<^verbatim>\<open>S3Store()\<close> creates is the environment.
\<close>

definition download_s3_uri ::
  "world \<Rightarrow> effect list \<Rightarrow> string \<Rightarrow> string
     \<Rightarrow> (effect list \<times> (py_error + DownloadResult)) option" where
  "download_s3_uri w h s3_uri output_folder =
     (let (h1, valid) = validate_s3_uri h s3_uri in
      if \<not> valid then
        Some (h1 @ [Logged logger_error ''Invalid S3 URI''], Inr (download_result False []))
      else
        (let (bucket, object_name) = parse_s3_uri s3_uri in
         download_file w h1 bucket object_name output_folder))"

section \<open>Reading a trace\<close>

text \<open>
  The words in which the properties below speak about the effects of a run.
\<close>

text \<open>The effects of uploading every pair of a list, each upload returning.\<close>

definition uploaded :: "string \<Rightarrow> (string \<times> string) list \<Rightarrow> effect list" where
  "uploaded bucket pairs = map (\<lambda>(f, k). UploadFile f bucket k True) pairs"

text \<open>
  Whether the environment lets the upload of pair \<open>i\<close> return, asked after the
  uploads of the \<open>i\<close> pairs before it have returned.
\<close>

definition upload_ok_after ::
  "world \<Rightarrow> effect list \<Rightarrow> string \<Rightarrow> (string \<times> string) list \<Rightarrow> nat \<Rightarrow> bool" where
  "upload_ok_after w h bucket pairs i =
     upload_file w (h @ uploaded bucket (take i pairs)) (fst (pairs ! i)) bucket (snd (pairs ! i))"

fun is_upload :: "effect \<Rightarrow> bool" where
  "is_upload (UploadFile filename bucket key ok) = True"
| "is_upload e = False"

fun is_download :: "effect \<Rightarrow> bool" where
  "is_download (DownloadFileobj bucket key path ok) = True"
| "is_download e = False"

fun download_key :: "effect \<Rightarrow> string" where
  "download_key (DownloadFileobj bucket key path ok) = key"
| "download_key e = []"

fun download_failed :: "effect \<Rightarrow> bool" where
  "download_failed (DownloadFileobj bucket key path ok) = (\<not> ok)"
| "download_failed e = False"

text \<open>Every failed download of a trace is followed at once by its log record.\<close>

fun failures_logged :: "effect list \<Rightarrow> bool" where
  "failures_logged [] = True"
| "failures_logged (e # t) =
     ((download_failed e \<longrightarrow>
         t \<noteq> [] \<and>
         hd t = Logged logger_exception ''Failed to download {item} from bucket {bucket}.'')
      \<and> failures_logged t)"

text \<open>
  The local path as the specification words it: the output folder, then the segments
  of the key without the first two.
\<close>

definition claimed_local_path :: "string \<Rightarrow> string \<Rightarrow> string" where
  "claimed_local_path output_folder key =
     os_path_join output_folder (drop 2 (py_split key CHR ''/''))"

section \<open>Environments for the examples\<close>

text \<open>
  An environment in which nothing goes wrong: every listing is empty, every call
  succeeds, every path exists and none is a directory. The examples change one answer
  of it at a time.
\<close>

definition quiet_world :: world where
  "quiet_world =
     \<lparr>list_objects = (\<lambda>h bucket prefix marker.
        Inr \<lparr>Contents = Some [], IsTruncated = Some False, KeyCount = None\<rparr>),
      list_objects_v2 = (\<lambda>h bucket prefix marker.
        Inr \<lparr>Contents = None, IsTruncated = Some False, KeyCount = Some 0\<rparr>),
      delete_objects = (\<lambda>h bucket keys. None),
      upload_file = (\<lambda>h filename bucket key. True),
      download_fileobj = (\<lambda>h bucket key path. True),
      path_exists = (\<lambda>h path. True),
      makedirs = (\<lambda>h path. None),
      fs_tree = (\<lambda>h path. NonDir),
      tar_write = (\<lambda>h archive_path members. TarCreated)\<rparr>"

text \<open>The archive block raises \<^verbatim>\<open>tarfile.TarError\<close>.\<close>

definition broken_tar_world :: world where
  "broken_tar_world = quiet_world\<lparr>tar_write := (\<lambda>h archive_path members. RaisedTarError)\<rparr>"

text \<open>
  The directory that the fixture \<^verbatim>\<open>setup_output_dir\<close> of
  \<^verbatim>\<open>test/test_s3_util.py\<close> builds: two sub-directories, one file at the top and one
  file in the first sub-directory.
\<close>

definition test_fixture_tree :: fsnode where
  "test_fixture_tree =
     Dir [(''provenance'', Dir [(''tmp_file_in_subdir'', NonDir)]),
          (''assets'', Dir []),
          (''tmp_file_top_level'', NonDir)]"

definition test_fixture_world :: world where
  "test_fixture_world =
     quiet_world\<lparr>fs_tree :=
       (\<lambda>h path. if path = ''tmp_dir_for_tests'' then test_fixture_tree else NonDir)\<rparr>"

text \<open>
  A store that answers a listing under which no key exists the way S3 does: the
  response has no \<^verbatim>\<open>Contents\<close> entry.
\<close>

definition no_contents_world :: world where
  "no_contents_world =
     quiet_world\<lparr>list_objects := (\<lambda>h bucket prefix marker.
        Inr \<lparr>Contents = None, IsTruncated = Some False, KeyCount = None\<rparr>)\<rparr>"

text \<open>A store whose second upload raises, whatever is uploaded.\<close>

definition second_upload_fails_world :: world where
  "second_upload_fails_world =
     quiet_world\<lparr>upload_file :=
       (\<lambda>h filename bucket key. length (filter is_upload h) \<noteq> 1)\<rparr>"

text \<open>A store that lists three keys on one page and whose second download raises.\<close>

definition asset_keys :: "string list" where
  "asset_keys = [''test_items/asset1/keyframes/1.jpg'',
                 ''test_items/asset1/keyframes/2.jpg'',
                 ''test_items/asset1/meta.json'']"

definition second_get_fails_world :: world where
  "second_get_fails_world =
     quiet_world\<lparr>
       list_objects_v2 := (\<lambda>h bucket prefix marker.
         Inr \<lparr>Contents = Some asset_keys, IsTruncated = Some False, KeyCount = Some 3\<rparr>),
       download_fileobj := (\<lambda>h bucket key path. length (filter is_download h) \<noteq> 1)\<rparr>"

text \<open>A store that lists one key of two segments.\<close>

definition short_key_world :: world where
  "short_key_world =
     quiet_world\<lparr>
       list_objects_v2 := (\<lambda>h bucket prefix marker.
         Inr \<lparr>Contents = Some [''a/b''], IsTruncated = Some False, KeyCount = Some 1\<rparr>)\<rparr>"

text \<open>
  A disk on which nothing exists but what the run has created: a path exists once
  \<^verbatim>\<open>os.makedirs\<close> has created it or a directory below it.
\<close>

fun creates :: "string \<Rightarrow> effect \<Rightarrow> bool" where
  "creates path (Makedirs created) = (created = path \<or> startswith created (path @ ''/''))"
| "creates path e = False"

definition empty_disk_world :: world where
  "empty_disk_world = quiet_world\<lparr>path_exists := (\<lambda>h path. list_ex (creates path) h)\<rparr>"

text \<open>The definitions an example unfolds to run the model on a concrete input.\<close>

lemmas path_eval =
  join2_def startswith_def endswith_def os_path_basename_def os_path_join_def py_split_def
  generate_asset_id_from_input_file_def ntpath_basename_def nt_after_drive_def bslash_def

lemmas transfer_eval =
  quiet_world_def tar_list_of_files_def is_valid_tar_path_def COMPRESSED_TAR_EXTENSION_def
  digest_file_list_def transfer_to_s3_def clear_prefix_def walk_file_list_def

lemmas download_eval =
  quiet_world_def download_file_def download_file_body_def makedirs_if_missing_def
  download_file_listing.simps key_file_path_def key_location_def download_result_def Let_def

section \<open>URI validation and parsing\<close>

lemma length_split_from:
  "length (split_from sep cur s) = Suc (length (filter (\<lambda>c. c = sep) s))"
  by (induction s arbitrary: cur) auto

lemma py_split_short: "length (py_split s sep) < 2 \<longleftrightarrow> sep \<notin> set s"
  by (auto simp: py_split_def length_split_from filter_empty_conv)

text \<open>
  What \<^verbatim>\<open>validate_s3_uri\<close> checks: the scheme, and a separator somewhere after it.
\<close>

lemma validate_s3_uri_iff:
  "snd (validate_s3_uri h s3_uri) \<longleftrightarrow>
     take 5 s3_uri = ''s3://'' \<and> CHR ''/'' \<in> set (drop 5 s3_uri)"
  by (simp add: validate_s3_uri_def py_split_short)

lemma validate_s3_uri_examples:
  "snd (validate_s3_uri h ''s3://bucket/obj'')"
  "\<not> snd (validate_s3_uri h ''ftp://bucket/obj'')"
  "\<not> snd (validate_s3_uri h ''s3://bucket'')"
  by (simp_all add: validate_s3_uri_iff)

lemma parse_s3_uri_example:
  "parse_s3_uri ''s3://beng-daan-visxp/jaap-dane-test/dane-test.tar.gz'' =
     (''beng-daan-visxp'', ''jaap-dane-test/dane-test.tar.gz'')"
  by (simp add: parse_s3_uri_def py_find_def slice_to_def)

text \<open>
  Claim C7 says that \<^verbatim>\<open>validate_s3_uri\<close> accepts a string exactly when it starts with
  \<^verbatim>\<open>s3://\<close> and has a non-empty object name after the bucket, so that a URI whose
  object name is empty is invalid. The function only looks for a separator after the
  scheme: \<^verbatim>\<open>s3://bucket/\<close> is accepted, and its object name, as \<^verbatim>\<open>parse_s3_uri\<close>
  reads it, is empty.
\<close>

theorem validate_s3_uri_empty_object_name:
  "snd (validate_s3_uri h ''s3://bucket/'') \<and> parse_s3_uri ''s3://bucket/'' = (''bucket'', [])"
  by (simp add: validate_s3_uri_iff parse_s3_uri_def py_find_def slice_to_def)

section \<open>The archiver\<close>

lemma endswith_last7: "drop (length p - 7) p = ''.tar.gz'' \<longleftrightarrow> endswith p ''.tar.gz''"
proof
  assume eq: "drop (length p - 7) p = ''.tar.gz''"
  have "length (drop (length p - 7) p) = 7"
    by (simp only: eq) simp
  then have "7 \<le> length p"
    by simp
  with eq show "endswith p ''.tar.gz''"
    by (simp add: endswith_def eval_nat_numeral)
next
  assume "endswith p ''.tar.gz''"
  then show "drop (length p - 7) p = ''.tar.gz''"
    by (simp add: endswith_def eval_nat_numeral)
qed

text \<open>
  Claim C6: \<^verbatim>\<open>tar_list_of_files\<close> returns false, and raises nothing, when the parent
  directory of the archive path does not exist, when the archive path does not end with
  \<^verbatim>\<open>.tar.gz\<close>, and when the archive block raises; the failure is logged, the last
  effect of the call being an error record.
\<close>

theorem tar_list_of_files_failure:
  assumes "\<not> path_exists w h (pathlib_parent archive_path)
           \<or> \<not> endswith archive_path ''.tar.gz''
           \<or> tar_write w h archive_path file_list \<noteq> TarCreated"
  shows "\<exists>t m. tar_list_of_files w h archive_path file_list =
           (h @ t @ [Logged logger_error m], False)"
proof (cases "snd (is_valid_tar_path w h archive_path)")
  case False
  then show ?thesis
    by (auto simp: tar_list_of_files_def is_valid_tar_path_def split: if_splits)
next
  case True
  then have valid: "is_valid_tar_path w h archive_path = (h, True)"
    by (auto simp: is_valid_tar_path_def split: if_splits)
  from True have "path_exists w h (pathlib_parent archive_path)"
    and "endswith archive_path ''.tar.gz''"
    by (auto simp: is_valid_tar_path_def COMPRESSED_TAR_EXTENSION_def endswith_last7
        split: if_splits)
  with assms have "tar_write w h archive_path file_list \<noteq> TarCreated"
    by simp
  then show ?thesis
    by (cases "tar_write w h archive_path file_list") (simp_all add: tar_list_of_files_def valid)
qed

text \<open>
  A member of the file list is missing: the handler logs, the function returns false.
  And a path with the wrong extension is refused before anything is written.
\<close>

theorem tar_list_of_files_failure_witness:
  "tar_list_of_files
     (quiet_world\<lparr>tar_write := (\<lambda>h archive_path members. RaisedFileNotFoundError)\<rparr>)
     [] ''out/bundle.tar.gz'' [''missing.txt'']
   = ([TarOpen ''out/bundle.tar.gz'' [''missing.txt''] RaisedFileNotFoundError,
       Logged logger_exception ''File in file list not found'',
       Logged logger_error ''Unknown error''], False)
   \<and> tar_list_of_files quiet_world [] ''out/bundle.zip'' [''a.txt'']
   = ([Logged logger_error
         ''Archive file should have correct extension: {COMPRESSED_TAR_EXTENSION}''], False)"
  using tar_list_of_files_failure
    [of "quiet_world\<lparr>tar_write := (\<lambda>h archive_path members. RaisedFileNotFoundError)\<rparr>"
        "[]" "''out/bundle.tar.gz''" "[''missing.txt'']"]
  by (simp add: transfer_eval)

section \<open>Mapping a file list to keys: properties\<close>

lemma startswith_append: "startswith (a @ b) a"
  by (simp add: startswith_def)

lemma startswith_trans: "startswith k q \<Longrightarrow> startswith q p \<Longrightarrow> startswith k p"
  by (metis startswith_def append_eq_conv_conj append.assoc append_take_drop_id)

lemma startswith_slash: "startswith b ''/'' \<Longrightarrow> CHR ''/'' \<in> set b"
  by (cases b) (auto simp: startswith_def)

lemma os_path_basename_no_slash: "CHR ''/'' \<notin> set (os_path_basename p)"
  by (auto simp: os_path_basename_def dest: set_takeWhileD)

lemma ntpath_basename_no_slash: "CHR ''/'' \<notin> set (ntpath_basename p)"
  by (auto simp: ntpath_basename_def dest: set_takeWhileD)

text \<open>
  On a path without backslash, drive letter or leading double separator, the file name
  that \<^verbatim>\<open>ntpath.basename\<close> gives is the one of \<^verbatim>\<open>os.path.basename\<close>.
\<close>

lemma nt_after_drive_plain:
  assumes "bslash \<notin> set p" and "\<not> startswith p ''//''" and "take 1 (drop 1 p) \<noteq> '':''"
  shows "nt_after_drive p = p"
proof -
  let ?normp = "map (\<lambda>c. if c = CHR ''/'' then bslash else c) p"
  have "take 2 ?normp \<noteq> [bslash, bslash]"
  proof
    assume eq: "take 2 ?normp = [bslash, bslash]"
    then obtain a b rest where p: "p = a # b # rest"
      by (cases p; cases "tl p") auto
    with eq assms(1) have "a = CHR ''/''" "b = CHR ''/''"
      by (auto split: if_splits)
    with p assms(2) show False
      by (simp add: startswith_def)
  qed
  moreover have "take 1 (drop 1 ?normp) \<noteq> '':''"
  proof
    assume eq: "take 1 (drop 1 ?normp) = '':''"
    then obtain a b rest where p: "p = a # b # rest"
      by (cases p; cases "tl p") auto
    with eq have "b = CHR '':''"
      by (auto simp: bslash_def split: if_splits)
    with p assms(3) show False by simp
  qed
  ultimately show ?thesis
    by (simp add: nt_after_drive_def Let_def)
qed

lemma ntpath_basename_posix:
  assumes "bslash \<notin> set p" and "\<not> startswith p ''//''" and "take 1 (drop 1 p) \<noteq> '':''"
  shows "ntpath_basename p = os_path_basename p"
proof -
  have "takeWhile (\<lambda>c. c \<noteq> CHR ''/'' \<and> c \<noteq> bslash) (rev p) =
        takeWhile (\<lambda>c. c \<noteq> CHR ''/'') (rev p)"
    using assms(1) by (intro takeWhile_cong) auto
  then show ?thesis
    by (simp add: ntpath_basename_def os_path_basename_def nt_after_drive_plain [OF assms])
qed

text \<open>Joining a name that holds no separator appends it.\<close>

lemma join2_relative:
  "CHR ''/'' \<notin> set b \<Longrightarrow>
   join2 a b = (if a = [] \<or> endswith a ''/'' then a @ b else a @ ''/'' @ b)"
  using startswith_slash [of b] by (auto simp: join2_def)

lemma startswith_join2: "CHR ''/'' \<notin> set b \<Longrightarrow> startswith (join2 a b) a"
  by (simp add: join2_relative startswith_append)

lemma digest_paths_keys:
  "(f, k) \<in> set (digest_paths file_list prefix) \<Longrightarrow> startswith k prefix"
proof (induction file_list prefix arbitrary: f k rule: digest_paths.induct)
  case (1 prefix)
  then show ?case by simp
next
  case (2 g rest prefix)
  then show ?case
    by (auto simp: generate_asset_id_from_input_file_def startswith_join2
        ntpath_basename_no_slash)
next
  case (3 g entries rest prefix)
  from "3.prems" consider
    (inside) t where "t \<in> set (os_walk g (Dir entries))"
      "(f, k) \<in> set (digest_paths (walk_file_list t) (join2 prefix (os_path_basename g)))"
    | (later) "(f, k) \<in> set (digest_paths rest prefix)"
    by auto
  then show ?case
  proof cases
    case inside
    then have "startswith k (join2 prefix (os_path_basename g))"
      using "3.IH"(1) by blast
    then show ?thesis
      using startswith_trans startswith_join2 os_path_basename_no_slash by blast
  next
    case later
    then show ?thesis using "3.IH"(2) by blast
  qed
qed

text \<open>A list of paths none of which is a directory: one pair per path, in order.\<close>

lemma digest_paths_files_only:
  "\<forall>e \<in> set file_list. snd e = NonDir \<Longrightarrow>
   digest_paths file_list prefix =
     map (\<lambda>e. (fst e, join2 prefix (ntpath_basename (fst e)))) file_list"
proof (induction file_list)
  case Nil
  then show ?case by simp
next
  case (Cons e file_list)
  then obtain f where "e = (f, NonDir)"
    by (cases e) auto
  with Cons show ?case
    by (simp add: generate_asset_id_from_input_file_def)
qed

lemma digest_file_list_files_only:
  assumes "\<forall>f \<in> set file_list. fs_tree w h f = NonDir"
  shows "digest_file_list w h file_list prefix [] =
           (h, Inr (map (\<lambda>f. (f, join2 prefix (ntpath_basename f))) file_list))"
proof -
  have "\<forall>e \<in> set (map (\<lambda>f. (f, fs_tree w h f)) file_list). snd e = NonDir"
    using assms by auto
  from digest_paths_files_only [OF this, of prefix] show ?thesis
    by (simp add: digest_file_list_def comp_def)
qed

text \<open>An empty directory contributes no pair.\<close>

lemma digest_paths_empty_directory:
  "digest_paths ((f, Dir []) # rest) prefix = digest_paths rest prefix"
  by (simp add: walk_file_list_def)

text \<open>
  Claim C3 says that without an archive path every regular file is emitted exactly once,
  a file below a directory of the list with the prefix extended by the chain of directory
  names down to it. The loop over \<^verbatim>\<open>os.walk(f)\<close> visits every directory below
  \<open>f\<close>, and the recursive call on the sub-directories of a triple walks them again: a
  file in a sub-directory is emitted once for each of the two, the second time under a
  key without the name of the sub-directory. On the directory of the repository's own
  test, \<^verbatim>\<open>tmp_file_in_subdir\<close> comes out twice.
\<close>

theorem digest_file_list_nested_file_twice:
  "digest_file_list test_fixture_world [] [''tmp_dir_for_tests''] ''test-prefix'' [] =
     ([], Inr [(''tmp_dir_for_tests/provenance/tmp_file_in_subdir'',
                ''test-prefix/tmp_dir_for_tests/provenance/tmp_file_in_subdir''),
               (''tmp_dir_for_tests/tmp_file_top_level'',
                ''test-prefix/tmp_dir_for_tests/tmp_file_top_level''),
               (''tmp_dir_for_tests/provenance/tmp_file_in_subdir'',
                ''test-prefix/tmp_dir_for_tests/tmp_file_in_subdir'')])"
  by (simp add: test_fixture_world_def test_fixture_tree_def transfer_eval path_eval)

text \<open>
  Claim C5: with an archive path given, \<^verbatim>\<open>digest_file_list\<close> raises when the archiver
  fails, and the exception leaves \<^verbatim>\<open>transfer_to_s3\<close> as well; when the archiver
  succeeds the result is the one pair of the archive path and the key made of the prefix
  and the file name of the archive.
\<close>

theorem digest_file_list_archive_branch:
  assumes "tar_archive_path \<noteq> []"
      and "tar_list_of_files w h tar_archive_path file_list = (h1, tar_success)"
  shows "(\<not> tar_success \<longrightarrow>
            digest_file_list w h file_list prefix tar_archive_path =
              (h1 @ [Logged logger_error
                       ''Could not archive the file list before transferring to S3''],
               Inl (Exception ''Could not digest file list: archive error''))
          \<and> (\<forall>h0 bucket. clear_prefix w h0 bucket prefix = Some (h, Inr ()) \<longrightarrow>
                transfer_to_s3 w h0 bucket prefix file_list tar_archive_path =
                  Some (h1 @ [Logged logger_error
                                ''Could not archive the file list before transferring to S3''],
                        Inl (Exception ''Could not digest file list: archive error''))))
       \<and> (tar_success \<longrightarrow>
            digest_file_list w h file_list prefix tar_archive_path =
              (h1, Inr [(tar_archive_path,
                         if prefix = [] \<or> endswith prefix ''/''
                         then prefix @ ntpath_basename tar_archive_path
                         else prefix @ ''/'' @ ntpath_basename tar_archive_path)]))"
  using assms
  by (auto simp: digest_file_list_def transfer_to_s3_def generate_asset_id_from_input_file_def
      join2_relative ntpath_basename_no_slash)

theorem digest_file_list_archive_branch_witness:
  "digest_file_list quiet_world [] [''a.txt'', ''b.txt''] ''prefix'' ''out/bundle.tar.gz'' =
     ([TarOpen ''out/bundle.tar.gz'' [''a.txt'', ''b.txt''] TarCreated],
      Inr [(''out/bundle.tar.gz'', ''prefix/bundle.tar.gz'')])
   \<and> transfer_to_s3 broken_tar_world [] ''bucket'' ''prefix'' [''a.txt'', ''b.txt'']
       ''out/bundle.tar.gz'' =
     Some ([ListObjects ''bucket'' ''prefix'' None,
            TarOpen ''out/bundle.tar.gz'' [''a.txt'', ''b.txt''] RaisedTarError,
            Logged logger_exception ''Failed to created archive: {archive_path}'',
            Logged logger_error ''Unknown error'',
            Logged logger_error ''Could not archive the file list before transferring to S3''],
           Inl (Exception ''Could not digest file list: archive error''))"
  using digest_file_list_archive_branch
    [of "''out/bundle.tar.gz''" quiet_world "[]" "[''a.txt'', ''b.txt'']"
        "[TarOpen ''out/bundle.tar.gz'' [''a.txt'', ''b.txt''] TarCreated]" True "''prefix''"]
  by (simp add: transfer_eval path_eval broken_tar_world_def)

text \<open>
  Claim C9: every pair that \<^verbatim>\<open>digest_file_list\<close> returns, with or without an archive
  path, has a key that begins with the prefix the caller gave.
\<close>

theorem digest_file_list_keys_start_with_prefix:
  assumes "snd (digest_file_list w h file_list prefix tar_archive_path) = Inr file_and_key_list"
      and "(f, k) \<in> set file_and_key_list"
  shows "startswith k prefix"
proof (cases "tar_archive_path = []")
  case True
  with assms show ?thesis
    by (auto simp: digest_file_list_def dest: digest_paths_keys)
next
  case False
  with assms have "k = join2 prefix (ntpath_basename tar_archive_path)"
    by (auto simp: digest_file_list_def generate_asset_id_from_input_file_def
        split: prod.splits if_splits)
  then show ?thesis
    by (simp add: startswith_join2 ntpath_basename_no_slash)
qed

theorem digest_file_list_keys_start_with_prefix_witness:
  "snd (digest_file_list quiet_world [] [''data/a.txt'', ''b.txt''] ''jobs/42'' []) =
     Inr [(''data/a.txt'', ''jobs/42/a.txt''), (''b.txt'', ''jobs/42/b.txt'')]
   \<and> startswith ''jobs/42/a.txt'' ''jobs/42''"
  using digest_file_list_keys_start_with_prefix
    [of quiet_world "[]" "[''data/a.txt'', ''b.txt'']" "''jobs/42''" "[]"
        "[(''data/a.txt'', ''jobs/42/a.txt''), (''b.txt'', ''jobs/42/b.txt'')]"
        "''data/a.txt''" "''jobs/42/a.txt''"]
  by (simp add: transfer_eval path_eval)

section \<open>Clearing a prefix and uploading\<close>

text \<open>
  A listing whose \<^verbatim>\<open>Contents\<close> is the empty list: \<^verbatim>\<open>clear_prefix\<close> deletes nothing
  and returns.
\<close>

lemma clear_prefix_empty_contents:
  assumes "list_objects w h bucket prefix None = Inr response"
      and "Contents response = Some []"
  shows "clear_prefix w h bucket prefix = Some (h @ [ListObjects bucket prefix None], Inr ())"
  using assms by (simp add: clear_prefix_def)

text \<open>
  Claim C4 says that the clear step completes without failure, and without a delete,
  for every bucket and prefix under which no key exists. \<^verbatim>\<open>clear_prefix\<close> reads
  \<^verbatim>\<open>response["Contents"]\<close> before anything else, and a response without that entry,
  which is how the store reports that nothing matches, makes it raise \<^verbatim>\<open>KeyError\<close>:
  the transfer ends there. (\<^verbatim>\<open>download_file\<close> tests \<^verbatim>\<open>KeyCount\<close> for this case
  before it reads \<^verbatim>\<open>Contents\<close>.)
\<close>

theorem clear_prefix_without_contents:
  assumes "list_objects w h bucket prefix None = Inr response"
      and "Contents response = None"
  shows "clear_prefix w h bucket prefix =
           Some (h @ [ListObjects bucket prefix None], Inl (KeyError ''Contents''))"
  using assms by (simp add: clear_prefix_def)

theorem clear_prefix_without_contents_witness:
  "list_objects no_contents_world [] ''bucket'' ''empty/prefix'' None =
     Inr \<lparr>Contents = None, IsTruncated = Some False, KeyCount = None\<rparr>
   \<and> clear_prefix no_contents_world [] ''bucket'' ''empty/prefix'' =
     Some ([ListObjects ''bucket'' ''empty/prefix'' None], Inl (KeyError ''Contents''))
   \<and> transfer_to_s3 no_contents_world [] ''bucket'' ''empty/prefix'' [''a.txt''] [] =
     Some ([ListObjects ''bucket'' ''empty/prefix'' None], Inl (KeyError ''Contents''))"
  using clear_prefix_without_contents [of no_contents_world "[]" "''bucket''" "''empty/prefix''"
      "\<lparr>Contents = None, IsTruncated = Some False, KeyCount = None\<rparr>"]
  by (simp add: no_contents_world_def quiet_world_def transfer_to_s3_def)

text \<open>
  The upload loop: \<open>n\<close> uploads return, then either the list is at its end and the
  result is true, or upload \<open>n\<close> raises and the loop ends there with false.
\<close>

lemma uploads_fail_fast:
  "\<exists>n\<le>length pairs.
     (\<forall>i<n. upload_ok_after w h bucket pairs i) \<and>
     (if n = length pairs
      then transfer_to_s3_uploads w h bucket pairs = (h @ uploaded bucket pairs, True)
      else \<not> upload_ok_after w h bucket pairs n \<and>
           transfer_to_s3_uploads w h bucket pairs =
             (h @ uploaded bucket (take n pairs)
                @ [UploadFile (fst (pairs ! n)) bucket (snd (pairs ! n)) False,
                   Logged logger_exception ''Failed to upload {f}''], False))"
proof (induction pairs arbitrary: h)
  case Nil
  then show ?case by (simp add: uploaded_def)
next
  case (Cons p pairs)
  obtain f k where p: "p = (f, k)" by (cases p)
  show ?case
  proof (cases "upload_file w h f bucket k")
    case False
    then have "\<not> upload_ok_after w h bucket (p # pairs) 0"
      by (simp add: upload_ok_after_def uploaded_def p)
    moreover have "transfer_to_s3_uploads w h bucket (p # pairs) =
        (h @ uploaded bucket (take 0 (p # pairs))
           @ [UploadFile (fst ((p # pairs) ! 0)) bucket (snd ((p # pairs) ! 0)) False,
              Logged logger_exception ''Failed to upload {f}''], False)"
      using False by (simp add: p uploaded_def)
    ultimately show ?thesis
      by (intro exI [of _ 0]) simp
  next
    case True
    let ?h = "h @ [UploadFile f bucket k True]"
    from Cons.IH [of ?h] obtain n where n: "n \<le> length pairs"
      and before: "\<forall>i<n. upload_ok_after w ?h bucket pairs i"
      and result: "if n = length pairs
        then transfer_to_s3_uploads w ?h bucket pairs = (?h @ uploaded bucket pairs, True)
        else \<not> upload_ok_after w ?h bucket pairs n \<and>
             transfer_to_s3_uploads w ?h bucket pairs =
               (?h @ uploaded bucket (take n pairs)
                  @ [UploadFile (fst (pairs ! n)) bucket (snd (pairs ! n)) False,
                     Logged logger_exception ''Failed to upload {f}''], False)"
      by blast
    have shift: "upload_ok_after w h bucket (p # pairs) (Suc i) = upload_ok_after w ?h bucket pairs i" for i
      by (simp add: upload_ok_after_def uploaded_def p)
    have first: "upload_ok_after w h bucket (p # pairs) 0"
      using True by (simp add: upload_ok_after_def uploaded_def p)
    have "\<forall>i<Suc n. upload_ok_after w h bucket (p # pairs) i"
    proof (intro allI impI)
      fix i assume "i < Suc n"
      then show "upload_ok_after w h bucket (p # pairs) i"
        using first before shift by (cases i) auto
    qed
    moreover have "if Suc n = length (p # pairs)
        then transfer_to_s3_uploads w h bucket (p # pairs) = (h @ uploaded bucket (p # pairs), True)
        else \<not> upload_ok_after w h bucket (p # pairs) (Suc n) \<and>
             transfer_to_s3_uploads w h bucket (p # pairs) =
               (h @ uploaded bucket (take (Suc n) (p # pairs))
                  @ [UploadFile (fst ((p # pairs) ! Suc n)) bucket (snd ((p # pairs) ! Suc n)) False,
                     Logged logger_exception ''Failed to upload {f}''], False)"
      using result True by (simp add: shift) (simp add: p uploaded_def)
    ultimately show ?thesis
      using n by (intro exI [of _ "Suc n"]) simp
  qed
qed

text \<open>
  Claim C1: once the prefix is cleared and the file list is mapped, \<^verbatim>\<open>transfer_to_s3\<close>
  uploads the pairs in order; the first upload that fails is the last one attempted, and
  the result is then false; the result is true only when every pair was uploaded.
\<close>

theorem transfer_to_s3_fail_fast:
  assumes "clear_prefix w h bucket prefix = Some (h1, Inr ())"
      and "digest_file_list w h1 file_list prefix tar_archive_path = (h2, Inr pairs)"
  shows "\<exists>n\<le>length pairs.
     (\<forall>i<n. upload_ok_after w h2 bucket pairs i) \<and>
     (if n = length pairs
      then transfer_to_s3 w h bucket prefix file_list tar_archive_path =
             Some (h2 @ uploaded bucket pairs, Inr True)
      else \<not> upload_ok_after w h2 bucket pairs n \<and>
           transfer_to_s3 w h bucket prefix file_list tar_archive_path =
             Some (h2 @ uploaded bucket (take n pairs)
                     @ [UploadFile (fst (pairs ! n)) bucket (snd (pairs ! n)) False,
                        Logged logger_exception ''Failed to upload {f}''], Inr False))"
proof -
  from uploads_fail_fast [of pairs w h2 bucket] obtain n where
    "n \<le> length pairs" "\<forall>i<n. upload_ok_after w h2 bucket pairs i"
    "if n = length pairs
      then transfer_to_s3_uploads w h2 bucket pairs = (h2 @ uploaded bucket pairs, True)
      else \<not> upload_ok_after w h2 bucket pairs n \<and>
           transfer_to_s3_uploads w h2 bucket pairs =
             (h2 @ uploaded bucket (take n pairs)
                @ [UploadFile (fst (pairs ! n)) bucket (snd (pairs ! n)) False,
                   Logged logger_exception ''Failed to upload {f}''], False)"
    by blast
  then show ?thesis
    using assms by (intro exI [of _ n]) (auto simp: transfer_to_s3_def split: if_splits)
qed

text \<open>The second of three uploads fails: two uploads are attempted, the result is false.\<close>

theorem transfer_to_s3_fail_fast_witness:
  "clear_prefix second_upload_fails_world [] ''bucket'' ''prefix'' =
     Some ([ListObjects ''bucket'' ''prefix'' None], Inr ())
   \<and> digest_file_list second_upload_fails_world [ListObjects ''bucket'' ''prefix'' None]
       [''a.txt'', ''b.txt'', ''c.txt''] ''prefix'' [] =
     ([ListObjects ''bucket'' ''prefix'' None],
      Inr [(''a.txt'', ''prefix/a.txt''), (''b.txt'', ''prefix/b.txt''),
           (''c.txt'', ''prefix/c.txt'')])
   \<and> transfer_to_s3 second_upload_fails_world [] ''bucket'' ''prefix''
       [''a.txt'', ''b.txt'', ''c.txt''] [] =
     Some ([ListObjects ''bucket'' ''prefix'' None,
            UploadFile ''a.txt'' ''bucket'' ''prefix/a.txt'' True,
            UploadFile ''b.txt'' ''bucket'' ''prefix/b.txt'' False,
            Logged logger_exception ''Failed to upload {f}''], Inr False)"
  using transfer_to_s3_fail_fast
    [of second_upload_fails_world "[]" "''bucket''" "''prefix''"
        "[ListObjects ''bucket'' ''prefix'' None]" "[''a.txt'', ''b.txt'', ''c.txt'']" "[]"
        "[ListObjects ''bucket'' ''prefix'' None]"
        "[(''a.txt'', ''prefix/a.txt''), (''b.txt'', ''prefix/b.txt''),
          (''c.txt'', ''prefix/c.txt'')]"]
  by (simp add: transfer_eval path_eval second_upload_fails_world_def)

section \<open>Downloading\<close>

text \<open>
  The effects of the listing loop and of the directory step are never downloads, and a
  run only adds effects to the trace it starts from.
\<close>

lemma download_file_listing_trace:
  assumes "download_file_listing w h bucket object_name response to_download = Some y"
  shows "\<exists>t. fst y = h @ t \<and> (\<forall>e \<in> set t. \<not> is_download e)"
  using assms
proof (induct rule: download_file_listing.raw_induct [rotated 1, consumes 1, case_names step])
  case (step listing w h bucket object_name response to_download y)
  show ?case
  proof (cases "Contents response")
    case None
    with step(2) show ?thesis by auto
  next
    case (Some items)
    note items = this
    show ?thesis
    proof (cases "IsTruncated response")
      case None
      with step(2) items show ?thesis by auto
    next
      case (Some truncated)
      note trunc = this
      show ?thesis
      proof (cases "\<not> truncated \<or> items = []")
        case True
        with step(2) items trunc show ?thesis by (auto split: if_splits)
      next
        case False
        let ?e = "ListObjectsV2 bucket object_name (Some (last items))"
        show ?thesis
        proof (cases "list_objects_v2 w h bucket object_name (Some (last items))")
          case (Inl e)
          with step(2) items trunc False have "fst y = h @ [?e]"
            by auto
          then show ?thesis by auto
        next
          case (Inr response')
          with step(2) items trunc False
          have "listing w (h @ [?e]) bucket object_name response' (to_download @ items) = Some y"
            by auto
          from step(1) [OF this] obtain t where "fst y = (h @ [?e]) @ t" "\<forall>e \<in> set t. \<not> is_download e"
            by blast
          then have "fst y = h @ (?e # t)" "\<forall>e \<in> set (?e # t). \<not> is_download e"
            by simp_all
          then show ?thesis by blast
        qed
      qed
    qed
  qed
qed

lemma makedirs_if_missing_trace:
  "makedirs_if_missing w h path = (h1, e) \<Longrightarrow>
   \<exists>t. h1 = h @ t \<and> (\<forall>e \<in> set t. \<not> is_download e)"
  by (auto simp: makedirs_if_missing_def split: if_splits)

text \<open>
  Every download of the loop over the keys is for a key of the list, from the bucket,
  into the file that \<open>key_file_path\<close> gives.
\<close>

lemma download_file_items_trace:
  "download_file_items w h bucket output_path keys flag = (h', r) \<Longrightarrow>
   \<exists>t. h' = h @ t \<and>
       (\<forall>b k p ok. DownloadFileobj b k p ok \<in> set t \<longrightarrow>
           b = bucket \<and> k \<in> set keys \<and> p = key_file_path output_path k)"
proof (induction keys arbitrary: h flag)
  case Nil
  then show ?case by auto
next
  case (Cons key keys)
  obtain h1 e where m: "makedirs_if_missing w h (key_location output_path key) = (h1, e)"
    by (cases "makedirs_if_missing w h (key_location output_path key)")
  then obtain t1 where t1: "h1 = h @ t1" "\<forall>e \<in> set t1. \<not> is_download e"
    using makedirs_if_missing_trace by blast
  show ?case
  proof (cases e)
    case (Some err)
    with Cons.prems m have "h' = h @ t1"
      using t1(1) by simp
    moreover have "\<forall>b k p ok. DownloadFileobj b k p ok \<notin> set t1"
      using t1(2) by fastforce
    ultimately show ?thesis by blast
  next
    case None
    let ?target = "key_file_path output_path key"
    let ?ok = "download_fileobj w h1 bucket key ?target"
    let ?step = "DownloadFileobj bucket key ?target ?ok
      # (if ?ok then [] else [Logged logger_exception ''Failed to download {item} from bucket {bucket}.''])"
    from Cons.prems m None
    have "download_file_items w (h1 @ ?step) bucket output_path keys (if ?ok then flag else False) = (h', r)"
      by (simp add: Let_def split: if_splits)
    from Cons.IH [OF this] obtain t where
      t: "h' = (h1 @ ?step) @ t"
         "\<forall>b k p ok. DownloadFileobj b k p ok \<in> set t \<longrightarrow>
            b = bucket \<and> k \<in> set keys \<and> p = key_file_path output_path k"
      by blast
    define tt where "tt = t1 @ ?step @ t"
    have "h' = h @ tt"
      using t(1) t1(1) by (simp add: tt_def)
    moreover have "\<forall>b k p ok. DownloadFileobj b k p ok \<in> set tt \<longrightarrow>
        b = bucket \<and> k \<in> set (key # keys) \<and> p = key_file_path output_path k"
      using t(2) t1(2) by (fastforce simp: tt_def split: if_splits)
    ultimately show ?thesis by blast
  qed
qed

lemma failures_logged_skip:
  "\<forall>e \<in> set s. \<not> download_failed e \<Longrightarrow> failures_logged (s @ t) = failures_logged t"
  by (induction s) auto

lemma download_file_items_fail_continue:
  assumes "\<forall>h' p. makedirs w h' p = None"
  shows "\<exists>t ok. download_file_items w h bucket output_path keys flag = (h @ t, Inr ok)
           \<and> map download_key (filter is_download t) = keys
           \<and> (ok \<longleftrightarrow> flag \<and> (\<forall>e \<in> set t. \<not> download_failed e))
           \<and> failures_logged t"
proof (induction keys arbitrary: h flag)
  case Nil
  then show ?case by simp
next
  case (Cons key keys)
  let ?loc = "key_location output_path key"
  let ?t1 = "if path_exists w h ?loc then [] else [Makedirs ?loc]"
  let ?h1 = "h @ ?t1"
  have m: "makedirs_if_missing w h ?loc = (?h1, None)"
    using assms by (simp add: makedirs_if_missing_def)
  let ?target = "key_file_path output_path key"
  let ?ok = "download_fileobj w ?h1 bucket key ?target"
  let ?step = "DownloadFileobj bucket key ?target ?ok
      # (if ?ok then [] else [Logged logger_exception ''Failed to download {item} from bucket {bucket}.''])"
  let ?h3 = "?h1 @ ?step"
  have unfold: "download_file_items w h bucket output_path (key # keys) flag =
      download_file_items w ?h3 bucket output_path keys (if ?ok then flag else False)"
    by (simp add: m Let_def)
  from Cons.IH [of ?h3 "if ?ok then flag else False"] obtain t ok where
    run: "download_file_items w ?h3 bucket output_path keys (if ?ok then flag else False) = (?h3 @ t, Inr ok)"
    and keys: "map download_key (filter is_download t) = keys"
    and ok: "ok \<longleftrightarrow> (if ?ok then flag else False) \<and> (\<forall>e \<in> set t. \<not> download_failed e)"
    and logged: "failures_logged t"
    by blast
  define tt where "tt = ?t1 @ ?step @ t"
  have "download_file_items w h bucket output_path (key # keys) flag = (h @ tt, Inr ok)"
    using unfold run by (simp add: tt_def)
  moreover have "map download_key (filter is_download tt) = key # keys"
    using keys by (simp add: tt_def)
  moreover have "ok \<longleftrightarrow> flag \<and> (\<forall>e \<in> set tt. \<not> download_failed e)"
    using ok by (auto simp: tt_def)
  moreover have "failures_logged tt"
    using logged by (simp add: tt_def failures_logged_skip)
  ultimately show ?case
    by (intro exI [of _ tt] exI [of _ ok]) simp
qed

lemma not_download_mem: "\<forall>e \<in> set t. \<not> is_download e \<Longrightarrow> DownloadFileobj b k p ok \<notin> set t"
  by fastforce

lemma download_file_body_trace:
  assumes run: "download_file_body w h1 bucket object_name output_folder = Some (h', r)"
  shows "\<exists>t. h' = h1 @ t \<and>
           (\<not> py_in ''tar.gz'' object_name \<longrightarrow>
              (\<forall>b k p ok. DownloadFileobj b k p ok \<in> set t \<longrightarrow>
                 b = bucket \<and>
                 p = key_file_path (join2 output_folder (os_path_basename object_name)) k))"
proof (cases "py_in ''tar.gz'' object_name")
  case True
  with run show ?thesis
    by (auto simp: download_file_body_def Let_def split: if_splits)
next
  case False
  let ?e2 = "ListObjectsV2 bucket object_name None"
  let ?h2 = "h1 @ [?e2]"
  let ?out = "join2 output_folder (os_path_basename object_name)"
  let ?P = "\<lambda>t. \<forall>b k p ok. DownloadFileobj b k p ok \<in> set t \<longrightarrow>
                 b = bucket \<and> p = key_file_path ?out k"
  have goal: "\<exists>t. h' = h1 @ t \<and> ?P t"
  proof (cases "list_objects_v2 w h1 bucket object_name None")
    case (Inl e)
    with run False have "h' = h1 @ [?e2]"
      by (auto simp: download_file_body_def Let_def)
    moreover have "?P [?e2]" by simp
    ultimately show ?thesis by blast
  next
    case (Inr response)
    note page = this
    show ?thesis
    proof (cases "KeyCount response")
      case None
      with run False page have "h' = h1 @ [?e2]"
        by (auto simp: download_file_body_def Let_def)
      moreover have "?P [?e2]" by simp
      ultimately show ?thesis by blast
    next
      case (Some key_count)
      note count = this
      show ?thesis
      proof (cases "key_count = 0")
        case True
        let ?t = "[?e2, Logged logger_error
          ''No content available in bucket '{bucket}' for prefix '{object_name}'.'']"
        from run False page count True have "h' = h1 @ ?t"
          by (auto simp: download_file_body_def Let_def)
        moreover have "?P ?t" by simp
        ultimately show ?thesis by blast
      next
        case nonzero: False
        show ?thesis
        proof (cases "download_file_listing w ?h2 bucket object_name response []")
          case None
          with run False page count nonzero show ?thesis
            by (simp add: download_file_body_def Let_def)
        next
          case (Some y)
          obtain h3 lr where y: "y = (h3, lr)" by (cases y)
          from download_file_listing_trace [OF Some] y obtain t3 where
            t3: "h3 = ?h2 @ t3" "\<forall>e \<in> set t3. \<not> is_download e"
            by auto
          have P3: "?P (?e2 # t3)"
            using not_download_mem [OF t3(2)] by simp
          show ?thesis
          proof (cases lr)
            case (Inl e)
            with run False page count nonzero Some y have "h' = h3"
              by (simp add: download_file_body_def Let_def)
            with t3 have "h' = h1 @ (?e2 # t3)" by simp
            with P3 show ?thesis by blast
          next
            case (Inr keys)
            obtain h4 ir where items: "download_file_items w h3 bucket ?out keys True = (h4, ir)"
              by (cases "download_file_items w h3 bucket ?out keys True")
            from download_file_items_trace [OF items] obtain t4 where
              t4: "h4 = h3 @ t4"
                  "\<forall>b k p ok. DownloadFileobj b k p ok \<in> set t4 \<longrightarrow>
                     b = bucket \<and> k \<in> set keys \<and> p = key_file_path ?out k"
              by blast
            from run False page count nonzero Some y Inr items have "h' = h4"
              by (auto simp: download_file_body_def Let_def split: sum.splits)
            with t3 t4 have "h' = h1 @ (?e2 # t3 @ t4)" by simp
            moreover have "?P (?e2 # t3 @ t4)"
              using P3 t4(2) by simp blast
            ultimately show ?thesis by blast
          qed
        qed
      qed
    qed
  qed
  then show ?thesis by blast
qed

text \<open>
  Claim C2: in a prefix retrieval whose listing is not empty, a download that fails is
  logged and recorded and the retrieval goes on: every listed key is attempted, once and
  in order, and the \<^verbatim>\<open>success\<close> of the result is the conjunction of the outcomes of
  all the downloads. The listing is taken as it returns, and \<^verbatim>\<open>os.makedirs\<close>, which
  no \<^verbatim>\<open>try\<close> encloses, is taken not to raise.
\<close>

theorem download_file_fail_continue:
  assumes no_tar: "\<not> py_in ''tar.gz'' object_name"
      and dirs: "\<forall>h' p. makedirs w h' p = None"
      and h1: "h1 = fst (makedirs_if_missing w h output_folder)"
      and page: "list_objects_v2 w h1 bucket object_name None = Inr response"
      and count: "KeyCount response = Some key_count" "key_count \<noteq> 0"
      and listing: "download_file_listing w (h1 @ [ListObjectsV2 bucket object_name None])
                      bucket object_name response [] = Some (h3, Inr keys)"
  shows "\<exists>t r. download_file w h bucket object_name output_folder = Some (h3 @ t, Inr r)
           \<and> map download_key (filter is_download t) = keys
           \<and> (success r \<longleftrightarrow> (\<forall>e \<in> set t. \<not> download_failed e))
           \<and> failures_logged t"
proof -
  let ?out = "join2 output_folder (os_path_basename object_name)"
  from download_file_items_fail_continue [OF dirs, of h3 bucket ?out keys True]
  obtain t ok where
    items: "download_file_items w h3 bucket ?out keys True = (h3 @ t, Inr ok)"
    and keys: "map download_key (filter is_download t) = keys"
    and ok: "ok \<longleftrightarrow> (\<forall>e \<in> set t. \<not> download_failed e)"
    and logged: "failures_logged t"
    by auto
  have m: "makedirs_if_missing w h output_folder = (h1, None)"
    using dirs h1 by (simp add: makedirs_if_missing_def)
  have "download_file w h bucket object_name output_folder =
      Some (h3 @ t, Inr (download_result ok ?out))"
    using no_tar page count listing items
    by (simp add: download_file_def m download_file_body_def Let_def)
  moreover have "success (download_result ok ?out) \<longleftrightarrow> (\<forall>e \<in> set t. \<not> download_failed e)"
    using ok by (simp add: download_result_def)
  ultimately show ?thesis
    using keys logged by (intro exI [of _ t] exI [of _ "download_result ok ?out"]) simp
qed

text \<open>The second of three downloads fails: all three are attempted, the result is false.\<close>

theorem download_file_fail_continue_witness:
  "\<not> py_in ''tar.gz'' ''test_items/asset1''
   \<and> (\<forall>h' p. makedirs second_get_fails_world h' p = None)
   \<and> download_file_listing second_get_fails_world
       [ListObjectsV2 ''bucket'' ''test_items/asset1'' None] ''bucket'' ''test_items/asset1''
       \<lparr>Contents = Some asset_keys, IsTruncated = Some False, KeyCount = Some 3\<rparr> [] =
     Some ([ListObjectsV2 ''bucket'' ''test_items/asset1'' None], Inr asset_keys)
   \<and> download_file second_get_fails_world [] ''bucket'' ''test_items/asset1'' ''out'' =
     Some ([ListObjectsV2 ''bucket'' ''test_items/asset1'' None,
            DownloadFileobj ''bucket'' ''test_items/asset1/keyframes/1.jpg''
              ''out/asset1/keyframes/1.jpg'' True,
            DownloadFileobj ''bucket'' ''test_items/asset1/keyframes/2.jpg''
              ''out/asset1/keyframes/2.jpg'' False,
            Logged logger_exception ''Failed to download {item} from bucket {bucket}.'',
            DownloadFileobj ''bucket'' ''test_items/asset1/meta.json''
              ''out/asset1/meta.json'' True],
           Inr \<lparr>success = False, file_path = ''out/asset1'', mime_type = ''unknown'',
                content_length = - 1\<rparr>)"
  using download_file_fail_continue
    [of "''test_items/asset1''" second_get_fails_world "[]" "[]" "''out''" "''bucket''"
        "\<lparr>Contents = Some asset_keys, IsTruncated = Some False, KeyCount = Some 3\<rparr>" 3
        "[ListObjectsV2 ''bucket'' ''test_items/asset1'' None]" asset_keys]
  by (simp add: download_eval path_eval second_get_fails_world_def asset_keys_def)

text \<open>
  The path of a key that has at least three segments: the last segment is appended to
  the joined segments before it, which is the join of all the segments after the second.
\<close>

lemma drop_two_butlast:
  assumes "3 \<le> length xs"
  shows "drop 2 xs = drop 2 (butlast xs) @ [last xs]"
proof -
  from assms have "xs \<noteq> []" by auto
  then have "xs = butlast xs @ [last xs]" by simp
  then have "drop 2 xs = drop 2 (butlast xs @ [last xs])" by simp
  also have "\<dots> = drop 2 (butlast xs) @ [last xs]"
    using assms by simp
  finally show ?thesis .
qed

lemma key_file_path_long_key:
  assumes "3 \<le> length (py_split key CHR ''/'')"
  shows "key_file_path output_path key =
           os_path_join output_path (drop 2 (py_split key CHR ''/''))"
  using drop_two_butlast [OF assms]
  by (simp add: key_file_path_def key_location_def os_path_join_def)

text \<open>
  Claim C8 says that the local path of every key of a prefix retrieval is the output
  folder followed by the segments of the key without the first two. The last segment of
  a key is always kept as the file name, so a key of two segments is written under its
  second segment, which the claim discards, whether the claim's folder is the output
  folder itself or the output path below it.
\<close>

theorem download_file_short_key_counterexample:
  "download_file short_key_world [] ''bucket'' ''a'' ''out'' =
     Some ([ListObjectsV2 ''bucket'' ''a'' None,
            DownloadFileobj ''bucket'' ''a/b'' ''out/a/b'' True],
           Inr (download_result True ''out/a''))
   \<and> py_split ''a/b'' CHR ''/'' = [''a'', ''b'']
   \<and> os_path_basename ''out/a/b'' = ''b''
   \<and> claimed_local_path ''out'' ''a/b'' = ''out''
   \<and> ''out/a/b'' \<noteq> claimed_local_path ''out'' ''a/b''
   \<and> ''out/a/b'' \<noteq> claimed_local_path (join2 ''out'' (os_path_basename ''a'')) ''a/b''"
  by (simp add: download_eval path_eval short_key_world_def claimed_local_path_def)

lemma key_file_path_short_key:
  assumes "length (py_split key CHR ''/'') < 3"
  shows "key_file_path output_path key = join2 output_path (last (py_split key CHR ''/''))"
  using assms by (simp add: key_file_path_def key_location_def os_path_join_def)

text \<open>
  Claim C8 as amended: a key that a prefix retrieval downloads is written below the
  output folder joined with the basename of the object name: a key of at least three
  segments to the path made of its segments after the second (those before the last as
  directories, the last as the file name), a key of one or two segments directly there,
  under its last segment.
\<close>

theorem download_file_local_path:
  assumes "download_file w h bucket object_name output_folder = Some (h', r)"
      and "\<not> py_in ''tar.gz'' object_name"
      and "DownloadFileobj b key path ok \<in> set (drop (length h) h')"
  shows "path =
           (let output_path = join2 output_folder (os_path_basename object_name);
                segments = py_split key CHR ''/''
            in if 3 \<le> length segments then os_path_join output_path (drop 2 segments)
               else join2 output_path (last segments))"
proof -
  obtain h1 e where m: "makedirs_if_missing w h output_folder = (h1, e)"
    by (cases "makedirs_if_missing w h output_folder")
  then obtain t1 where t1: "h1 = h @ t1" "\<forall>e \<in> set t1. \<not> is_download e"
    using makedirs_if_missing_trace by blast
  have "path = key_file_path (join2 output_folder (os_path_basename object_name)) key"
  proof (cases e)
    case (Some err)
    with assms(1) m have "h' = h1"
      by (simp add: download_file_def)
    with t1 assms(3) show ?thesis
      using not_download_mem [OF t1(2)] by simp
  next
    case None
    with assms(1) m
    have "download_file_body w h1 bucket object_name output_folder = Some (h', r)"
      by (simp add: download_file_def)
    from download_file_body_trace [OF this] assms(2) obtain t where
      t: "h' = h1 @ t"
         "\<forall>b k p ok. DownloadFileobj b k p ok \<in> set t \<longrightarrow>
            b = bucket \<and>
            p = key_file_path (join2 output_folder (os_path_basename object_name)) k"
      by blast
    from t(1) t1(1) assms(3) have "DownloadFileobj b key path ok \<in> set (t1 @ t)"
      by simp
    then have "DownloadFileobj b key path ok \<in> set t"
      using not_download_mem [OF t1(2)] by auto
    with t(2) show ?thesis by blast
  qed
  then show ?thesis
    using key_file_path_long_key [of key] key_file_path_short_key [of key]
    by (simp add: Let_def not_le)
qed

theorem download_file_local_path_witness:
  "download_file second_get_fails_world [] ''bucket'' ''test_items/asset1'' ''out'' =
     Some ([ListObjectsV2 ''bucket'' ''test_items/asset1'' None,
            DownloadFileobj ''bucket'' ''test_items/asset1/keyframes/1.jpg''
              ''out/asset1/keyframes/1.jpg'' True,
            DownloadFileobj ''bucket'' ''test_items/asset1/keyframes/2.jpg''
              ''out/asset1/keyframes/2.jpg'' False,
            Logged logger_exception ''Failed to download {item} from bucket {bucket}.'',
            DownloadFileobj ''bucket'' ''test_items/asset1/meta.json''
              ''out/asset1/meta.json'' True],
           Inr (download_result False ''out/asset1''))
   \<and> py_split ''test_items/asset1/keyframes/1.jpg'' CHR ''/'' =
       [''test_items'', ''asset1'', ''keyframes'', ''1.jpg'']
   \<and> ''out/asset1/keyframes/1.jpg'' =
       os_path_join (join2 ''out'' (os_path_basename ''test_items/asset1''))
         (drop 2 (py_split ''test_items/asset1/keyframes/1.jpg'' CHR ''/''))"
  using download_file_local_path
    [of second_get_fails_world "[]" "''bucket''" "''test_items/asset1''" "''out''"
        "[ListObjectsV2 ''bucket'' ''test_items/asset1'' None,
          DownloadFileobj ''bucket'' ''test_items/asset1/keyframes/1.jpg''
            ''out/asset1/keyframes/1.jpg'' True,
          DownloadFileobj ''bucket'' ''test_items/asset1/keyframes/2.jpg''
            ''out/asset1/keyframes/2.jpg'' False,
          Logged logger_exception ''Failed to download {item} from bucket {bucket}.'',
          DownloadFileobj ''bucket'' ''test_items/asset1/meta.json''
            ''out/asset1/meta.json'' True]"
        "Inr (download_result False ''out/asset1'')"
        "''bucket''" "''test_items/asset1/keyframes/1.jpg''" "''out/asset1/keyframes/1.jpg''" True]
  by (simp add: download_eval path_eval second_get_fails_world_def asset_keys_def)

text \<open>
  Claim C10: when the output folder does not exist, \<^verbatim>\<open>download_file\<close> creates it with
  \<^verbatim>\<open>os.makedirs\<close> before anything else: the creation is the first effect of every run
  that returns, so it precedes every download, and once it has succeeded the download
  runs as it does for a folder that exists. The archiver does not do this: a missing
  parent directory makes \<^verbatim>\<open>tar_list_of_files\<close> return false and create nothing.
\<close>

theorem download_file_creates_output_folder:
  assumes "\<not> path_exists w h output_folder"
  shows "(makedirs w h output_folder = None \<longrightarrow>
            download_file w h bucket object_name output_folder =
            download_file_body w (h @ [Makedirs output_folder]) bucket object_name output_folder)
       \<and> (\<forall>h' r. download_file w h bucket object_name output_folder = Some (h', r) \<longrightarrow>
            (\<exists>t. h' = h @ Makedirs output_folder # t))
       \<and> (\<forall>archive_path members. \<not> path_exists w h (pathlib_parent archive_path) \<longrightarrow>
            tar_list_of_files w h archive_path members =
              (h @ [Logged logger_error ''Parent dir does not exist: {archive_path}''], False))"
proof (intro conjI allI impI)
  assume "makedirs w h output_folder = None"
  with assms show "download_file w h bucket object_name output_folder =
      download_file_body w (h @ [Makedirs output_folder]) bucket object_name output_folder"
    by (simp add: download_file_def makedirs_if_missing_def)
next
  fix h' r
  assume run: "download_file w h bucket object_name output_folder = Some (h', r)"
  show "\<exists>t. h' = h @ Makedirs output_folder # t"
  proof (cases "makedirs w h output_folder")
    case (Some e)
    with assms run have "h' = h @ [Makedirs output_folder]"
      by (auto simp: download_file_def makedirs_if_missing_def)
    then show ?thesis by simp
  next
    case None
    with assms run
    have "download_file_body w (h @ [Makedirs output_folder]) bucket object_name output_folder = Some (h', r)"
      by (simp add: download_file_def makedirs_if_missing_def)
    from download_file_body_trace [OF this] show ?thesis by auto
  qed
next
  fix archive_path members
  assume "\<not> path_exists w h (pathlib_parent archive_path)"
  then show "tar_list_of_files w h archive_path members =
      (h @ [Logged logger_error ''Parent dir does not exist: {archive_path}''], False)"
    by (simp add: tar_list_of_files_def is_valid_tar_path_def)
qed

theorem download_file_creates_output_folder_witness:
  "\<not> path_exists empty_disk_world [] ''out/new''
   \<and> download_file empty_disk_world [] ''bucket'' ''backup/archive.tar.gz'' ''out/new'' =
       Some ([Makedirs ''out/new'',
              DownloadFileobj ''bucket'' ''backup/archive.tar.gz'' ''out/new/archive.tar.gz'' True],
             Inr (download_result True ''out/new/archive.tar.gz''))
   \<and> tar_list_of_files empty_disk_world [] ''out/new/bundle.tar.gz'' [''a.txt''] =
       ([Logged logger_error ''Parent dir does not exist: {archive_path}''], False)"
  using download_file_creates_output_folder
    [of empty_disk_world "[]" "''out/new''" "''bucket''" "''backup/archive.tar.gz''"]
  by (simp add: download_eval path_eval empty_disk_world_def tar_list_of_files_def
      is_valid_tar_path_def pathlib_parent_def)

end
